theory Spec2Isabelle
  imports Main
begin

section \<open>The time tool of \<^verbatim>\<open>src/app/api/mcp/route.js\<close>\<close>

text \<open>
  The route registers one tool, \<^verbatim>\<open>time_now\<close>, on an MCP server. Its callback reads the
  clock (\<^verbatim>\<open>new Date()\<close>), formats the reading with
  \<^verbatim>\<open>toLocaleString('tr-TR', options)\<close> in the zone \<^verbatim>\<open>Europe/Istanbul\<close> and returns one
  text block. The callback and the configuration closure are embedded from the source.
  The formatter, the time zone data and the server that registers and dispatches tools
  belong to the JavaScript runtime and to packages that are not in the repository; they
  are modelled from the specification and marked so. The import of \<^verbatim>\<open>server\<close> from
  \<^verbatim>\<open>typescript\<close> is never used (the closure's parameter shadows it) and has no counterpart
  here. The callback is declared \<^verbatim>\<open>async\<close> and never suspends: its promise is modelled by
  the value it resolves to, or the error it rejects with.
\<close>

subsection \<open>Data model\<close>

text \<open>A content block \<^verbatim>\<open>{type: 'text', text: ...}\<close> and the result \<^verbatim>\<open>{content: [...]}\<close>.
  Strings are byte lists: the source file is UTF-8.\<close>

record content_block =
  type_field :: string
  text_field :: string

record tool_result =
  content :: "content_block list"

text \<open>What can be thrown: the runtime's \<^verbatim>\<open>RangeError\<close> for a time zone it has no data for,
  and the server's errors for a name registered twice, an unknown tool and arguments
  that do not conform to the schema.\<close>

datatype error =
  RangeError string
| AlreadyRegistered string
| ToolNotFound string
| InvalidParams string

text \<open>The options object of the source: the zone and one style per field, each
  \<^verbatim>\<open>'numeric'\<close> or \<^verbatim>\<open>'2-digit'\<close>.\<close>

datatype field_style = Numeric | TwoDigit

record format_options =
  timeZone :: string
  hour :: field_style
  minute :: field_style
  second :: field_style
  day :: field_style
  month :: field_style
  year :: field_style

text \<open>The process the callback runs in: the system clock, in milliseconds since
  1 January 1970 UTC (what \<^verbatim>\<open>new Date()\<close> reads; a clock set at or after the epoch reads a
  natural number), and the rest of the process state, of any type.\<close>

record 's process =
  clock :: nat
  state :: 's

text \<open>The time zone data of the runtime: for each zone name it knows, the offset from UTC
  in seconds at every instant (milliseconds since the epoch). It is a parameter of the
  model: the table is not part of the repository.\<close>

type_synonym tzdata = "string \<Rightarrow> (nat \<Rightarrow> int) option"

subsection \<open>The runtime's formatter\<close>

text \<open>
  Modelled from the spec: \<^verbatim>\<open>Date.prototype.toLocaleString\<close> and the calendar arithmetic
  behind it are part of the JavaScript runtime, not of the repository. The spec fixes what
  the call of the source produces: the fields of the local time in the zone named by the
  options, in the pattern of the locale \<^verbatim>\<open>tr-TR\<close>, that is day, month and year separated
  by full stops, a space, then hour, minute and second separated by colons
  (\<^verbatim>\<open>15.01.2024 13:30:00\<close>). The definitions of this subsection are that model: the
  proleptic Gregorian calendar, decimal digits, and the pattern.
\<close>

definition is_leap :: "int \<Rightarrow> bool" where
  "is_leap y = (y mod 4 = 0 \<and> (y mod 100 \<noteq> 0 \<or> y mod 400 = 0))"

definition days_in_year :: "int \<Rightarrow> int" where
  "days_in_year y = (if is_leap y then 366 else 365)"

definition month_lengths :: "int \<Rightarrow> int list" where
  "month_lengths y = [31, if is_leap y then 29 else 28, 31, 30, 31, 30, 31, 31, 30, 31, 30, 31]"

text \<open>\<open>year_of_days y d\<close>: the year and the day within it (from 0) of the day that lies \<open>d\<close>
  days after 1 January of year \<open>y\<close>, walking whole years forwards or backwards.\<close>

function year_of_days :: "int \<Rightarrow> int \<Rightarrow> int \<times> int" where
  "year_of_days y d =
     (if d < 0 then year_of_days (y - 1) (d + days_in_year (y - 1))
      else if days_in_year y \<le> d then year_of_days (y + 1) (d - days_in_year y)
      else (y, d))"
  by pat_completeness auto
termination
  by (relation "measure (\<lambda>(y, d). if d < 0 then nat (366 - d) else nat d)")
     (auto simp: days_in_year_def split: if_splits)

declare year_of_days.simps [simp del]

text \<open>\<open>month_of_days ls m d\<close>: the month and the day of the month (from 1) of the day
  that lies \<open>d\<close> days after the first day of month \<open>m\<close>; \<open>ls\<close> are the lengths of month
  \<open>m\<close> and of the months after it.\<close>

fun month_of_days :: "int list \<Rightarrow> int \<Rightarrow> int \<Rightarrow> int \<times> int" where
  "month_of_days [] m d = (m, d + 1)"
| "month_of_days (l # ls) m d =
     (if d < l then (m, d + 1) else month_of_days ls (m + 1) (d - l))"

record civil =
  c_year :: int
  c_month :: int
  c_day :: int
  c_hour :: int
  c_minute :: int
  c_second :: int

text \<open>The fields of the local time at instant \<open>now\<close> (milliseconds since the epoch) in a
  zone that is \<open>off\<close> seconds ahead of UTC.\<close>

definition local_fields :: "int \<Rightarrow> nat \<Rightarrow> civil" where
  "local_fields off now =
     (let secs = (int now + 1000 * off) div 1000;
          days = secs div 86400;
          sod = secs mod 86400;
          (y, doy) = year_of_days 1970 days;
          (m, d) = month_of_days (month_lengths y) 1 doy
      in \<lparr>c_year = y, c_month = m, c_day = d,
          c_hour = sod div 3600, c_minute = sod mod 3600 div 60, c_second = sod mod 60\<rparr>)"

definition digit_char :: "nat \<Rightarrow> char" where
  "digit_char n = char_of (48 + n)"

fun digits_of :: "nat \<Rightarrow> string" where
  "digits_of n = (if n < 10 then [digit_char n] else digits_of (n div 10) @ [digit_char (n mod 10)])"

declare digits_of.simps [simp del]

definition two_digits :: "nat \<Rightarrow> string" where
  "two_digits n = [digit_char (n div 10 mod 10), digit_char (n mod 10)]"

text \<open>A field in its style: \<^verbatim>\<open>'numeric'\<close> prints as many digits as the number has,
  \<^verbatim>\<open>'2-digit'\<close> prints the last two digits, padded with a zero.\<close>

fun render :: "field_style \<Rightarrow> nat \<Rightarrow> string" where
  "render Numeric n = digits_of n"
| "render TwoDigit n = two_digits n"

text \<open>A year is printed as a year of its era, with no era beside it: the years from 1 on
  as they are, year 0 and the years before it counted backwards from 1 (the convention of
  the runtime's formatter; no clock reading at or after the epoch reaches them in a zone
  whose offset is less than a day).\<close>

definition year_of_era :: "int \<Rightarrow> nat" where
  "year_of_era y = (if y \<le> 0 then nat (1 - y) else nat y)"

text \<open>
  Modelled from the spec: the runtime's \<^verbatim>\<open>toLocaleString\<close> for the locale \<^verbatim>\<open>tr-TR\<close>. A zone
  the runtime has no data for is the infrastructure failure of the spec (a \<^verbatim>\<open>RangeError\<close>
  of the runtime); otherwise the fields are printed in the locale's pattern.
\<close>

definition toLocaleString_tr_TR :: "tzdata \<Rightarrow> format_options \<Rightarrow> nat \<Rightarrow> error + string" where
  "toLocaleString_tr_TR db options now =
     (case db (timeZone options) of
        None \<Rightarrow> Inl (RangeError (timeZone options))
      | Some zone \<Rightarrow>
          (let c = local_fields (zone now) now
           in Inr (render (day options) (nat (c_day c)) @ ''.'' @
                   render (month options) (nat (c_month c)) @ ''.'' @
                   render (year options) (year_of_era (c_year c)) @ '' '' @
                   render (hour options) (nat (c_hour c)) @ '':'' @
                   render (minute options) (nat (c_minute c)) @ '':'' @
                   render (second options) (nat (c_second c)))))"

subsection \<open>Reading a timestamp back\<close>

text \<open>
  Modelled from the spec: the spec's test parses the timestamp of the returned text with
  the offset of the zone and compares the instant with the clock. The parser reads the
  pattern of the formatter; the instant of a local time is counted in days from
  1 January 1970.
\<close>

definition is_digit :: "char \<Rightarrow> bool" where
  "is_digit c = (48 \<le> (of_char c :: nat) \<and> (of_char c :: nat) \<le> 57)"

definition digit_val :: "char \<Rightarrow> nat" where
  "digit_val c = of_char c - 48"

fun read_digits :: "nat \<Rightarrow> string \<Rightarrow> nat" where
  "read_digits acc [] = acc"
| "read_digits acc (c # cs) = read_digits (10 * acc + digit_val c) cs"

definition parse_number :: "string \<Rightarrow> nat option" where
  "parse_number s = (if s \<noteq> [] \<and> list_all is_digit s then Some (read_digits 0 s) else None)"

fun parse_timestamp :: "string \<Rightarrow> civil option" where
  "parse_timestamp (d1 # d2 # p1 # m1 # m2 # p2 # rest) =
     (case dropWhile is_digit rest of
        [sp, h1, h2, q1, n1, n2, q2, s1, s2] \<Rightarrow>
          if p1 = CHR ''.'' \<and> p2 = CHR ''.'' \<and> sp = CHR '' '' \<and> q1 = CHR '':'' \<and> q2 = CHR '':''
          then
            (case (parse_number [d1, d2], parse_number [m1, m2],
                   parse_number (takeWhile is_digit rest),
                   parse_number [h1, h2], parse_number [n1, n2], parse_number [s1, s2]) of
               (Some d, Some m, Some y, Some h, Some n, Some s) \<Rightarrow>
                 Some \<lparr>c_year = int y, c_month = int m, c_day = int d,
                       c_hour = int h, c_minute = int n, c_second = int s\<rparr>
             | _ \<Rightarrow> None)
          else None
      | _ \<Rightarrow> None)"
| "parse_timestamp _ = None"

text \<open>The days from 1 January 1970 to 1 January of year \<open>y\<close>, and to a day of the
  calendar.\<close>

definition days_before_year :: "int \<Rightarrow> int" where
  "days_before_year y =
     365 * (y - 1970) + ((y - 1) div 4 - (y - 1) div 100 + (y - 1) div 400) - 477"

definition days_from_civil :: "int \<Rightarrow> int \<Rightarrow> int \<Rightarrow> int" where
  "days_from_civil y m d =
     days_before_year y + sum_list (take (nat (m - 1)) (month_lengths y)) + (d - 1)"

text \<open>The instant (milliseconds since the epoch) at which a zone \<open>off\<close> seconds ahead of
  UTC shows the local time \<open>c\<close>.\<close>

definition instant_of_civil :: "civil \<Rightarrow> int \<Rightarrow> int" where
  "instant_of_civil c off =
     1000 * (86400 * days_from_civil (c_year c) (c_month c) (c_day c)
             + 3600 * c_hour c + 60 * c_minute c + c_second c - off)"

subsection \<open>The callback\<close>

text \<open>The fixed prefix of the sentence, \<^verbatim>\<open>Su an Istanbul saatiyle: \<close> with the Turkish
  capital letters S with cedilla (bytes C5 9E) and dotted I (bytes C4 B0).\<close>

definition prefix_text :: string where
  "prefix_text = [CHR 0xC5, CHR 0x9E] @ ''u an '' @ [CHR 0xC4, CHR 0xB0] @ ''stanbul saatiyle: ''"

definition time_now_options :: format_options where
  "time_now_options =
     \<lparr>timeZone = ''Europe/Istanbul'', hour = TwoDigit, minute = TwoDigit, second = TwoDigit,
      day = TwoDigit, month = TwoDigit, year = Numeric\<rparr>"

text \<open>\<^verbatim>\<open>new Date()\<close> reads the clock of the process.\<close>

definition new_Date :: "'s process \<Rightarrow> nat" where
  "new_Date w = clock w"

text \<open>The callback \<^verbatim>\<open>async () => {...}\<close>. It binds no parameter, so whatever arguments the
  caller passes (\<open>args\<close>) are not read; it reads the clock of the process and hands the
  process back as it was. An exception of the formatter propagates.\<close>

definition time_now ::
  "tzdata \<Rightarrow> 'a \<Rightarrow> 's process \<Rightarrow> (error + tool_result) \<times> 's process" where
  "time_now db args w =
     (let now = new_Date w;
          options = time_now_options
      in case toLocaleString_tr_TR db options now of
           Inl e \<Rightarrow> (Inl e, w)
         | Inr timeString \<Rightarrow>
             (Inr \<lparr>content = [\<lparr>type_field = ''text'',
                                 text_field = prefix_text @ timeString\<rparr>]\<rparr>, w))"

subsection \<open>Registration\<close>

text \<open>The schema of a tool: for each parameter it declares, what values it accepts. The
  source registers the empty object \<^verbatim>\<open>{}\<close>, the empty list here.\<close>

type_synonym 'v shape = "(string \<times> ('v \<Rightarrow> bool)) list"

record ('v, 's) registered_tool =
  description :: string
  inputSchema :: "'v shape"
  callback :: "tzdata \<Rightarrow> (string \<times> 'v) list \<Rightarrow> 's process \<Rightarrow> (error + tool_result) \<times> 's process"

record ('v, 's) mcp_server =
  tools :: "(string \<times> ('v, 's) registered_tool) list"
  resources :: "string list"
  prompts :: "string list"

text \<open>
  Modelled from the spec: \<^verbatim>\<open>server.tool\<close> belongs to the MCP framework, not to the
  repository. It enters the 4-tuple of name, description, schema and callback into the
  registry of tools, and a name must not collide with a registered one.
\<close>

definition server_tool ::
  "string \<Rightarrow> string \<Rightarrow> 'v shape \<Rightarrow>
   (tzdata \<Rightarrow> (string \<times> 'v) list \<Rightarrow> 's process \<Rightarrow> (error + tool_result) \<times> 's process) \<Rightarrow>
   ('v, 's) mcp_server \<Rightarrow> error + ('v, 's) mcp_server" where
  "server_tool name desc schema cb server =
     (if name \<in> set (map fst (tools server)) then Inl (AlreadyRegistered name)
      else Inr (server\<lparr>tools := tools server @
                  [(name, \<lparr>description = desc, inputSchema = schema, callback = cb\<rparr>)]\<rparr>))"

text \<open>The configuration closure of the source, \<^verbatim>\<open>(server) => { server.tool(...) }\<close>.\<close>

definition configure :: "('v, 's) mcp_server \<Rightarrow> error + ('v, 's) mcp_server" where
  "configure server =
     server_tool ''time_now''
       ''Returns the current time in Istanbul (Europe/Istanbul timezone)''
       [] time_now server"

text \<open>
  Modelled from the spec: \<^verbatim>\<open>createMcpHandler\<close> belongs to the package \<^verbatim>\<open>mcp-handler\<close>. It
  makes a server with nothing registered and runs the configuration closure on it. The
  server options (\<^verbatim>\<open>{}\<close> in the source) and the configuration of the route
  (\<^verbatim>\<open>{basePath: '/api'}\<close>) do not bear on the registry.
\<close>

record handler_config =
  basePath :: string

definition new_server :: "('v, 's) mcp_server" where
  "new_server = \<lparr>tools = [], resources = [], prompts = []\<rparr>"

definition createMcpHandler ::
  "(('v, 's) mcp_server \<Rightarrow> error + ('v, 's) mcp_server) \<Rightarrow> unit \<Rightarrow> handler_config \<Rightarrow>
   error + ('v, 's) mcp_server" where
  "createMcpHandler initializeServer serverOptions config = initializeServer new_server"

text \<open>The handler of the source, exported for the methods GET, POST and DELETE: the server
  it serves.\<close>

definition handler :: "error + ('v, 's) mcp_server" where
  "handler = createMcpHandler configure () \<lparr>basePath = ''/api''\<rparr>"



subsection \<open>Two runtimes for concrete runs\<close>

text \<open>A runtime whose only zone is \<^verbatim>\<open>Europe/Istanbul\<close>, three hours ahead of UTC at every
  instant (no daylight saving), and a process whose clock reads
  2024-01-15T10:30:00Z.\<close>

definition utc_plus_3 :: tzdata where
  "utc_plus_3 name = (if name = ''Europe/Istanbul'' then Some (\<lambda>t. 10800) else None)"

definition process_2024 :: "unit process" where
  "process_2024 = \<lparr>clock = 1705314600000, state = ()\<rparr>"

text \<open>A runtime whose zone \<^verbatim>\<open>Europe/Istanbul\<close> leaves summer time as Istanbul did on
  8 November 2015: three hours ahead of UTC before 01:00 UTC of that day
  (instant 1446944400000), two hours from then on.\<close>

definition autumn_2015 :: tzdata where
  "autumn_2015 name =
     (if name = ''Europe/Istanbul''
      then Some (\<lambda>t. if t < 1446944400000 then 10800 else 7200) else None)"

section \<open>The calendar of the model\<close>

text \<open>Stepping the divisor: a quotient grows by one exactly at a multiple.\<close>

lemma div_step:
  fixes y k :: int
  assumes "0 < k"
  shows "y div k = (y - 1) div k + (if y mod k = 0 then 1 else 0)"
proof (cases "y mod k = 0")
  case True
  have "y = k * (y div k)" using True by (metis mult_div_mod_eq add.right_neutral)
  then have "y - 1 = k * (y div k - 1) + (k - 1)"
    by (simp add: algebra_simps)
  then have "(y - 1) div k = y div k - 1"
    using assms by (intro int_div_pos_eq [where r = "k - 1"]) auto
  with True show ?thesis by simp
next
  case False
  have "0 \<le> y mod k" "y mod k < k" using assms by auto
  with False have "1 \<le> y mod k" by linarith
  have "y - 1 = k * (y div k) + (y mod k - 1)" by simp
  then have "(y - 1) div k = y div k"
    using \<open>1 \<le> y mod k\<close> \<open>y mod k < k\<close>
    by (intro int_div_pos_eq [where r = "y mod k - 1"]) auto
  with False show ?thesis by simp
qed

lemma leap_mods:
  fixes y :: int
  shows "y mod 400 = 0 \<Longrightarrow> y mod 100 = 0" and "y mod 100 = 0 \<Longrightarrow> y mod 4 = 0"
proof -
  have "y mod 100 = y mod 400 mod 100" by (simp add: mod_mod_cancel)
  then show "y mod 400 = 0 \<Longrightarrow> y mod 100 = 0" by simp
  have "y mod 4 = y mod 100 mod 4" by (simp add: mod_mod_cancel)
  then show "y mod 100 = 0 \<Longrightarrow> y mod 4 = 0" by simp
qed

lemma days_before_year_next: "days_before_year (y + 1) = days_before_year y + days_in_year y"
proof -
  define a where "a = (y - 1) div 4"
  define b where "b = (y - 1) div 100"
  define c where "c = (y - 1) div 400"
  define p where "p \<longleftrightarrow> y mod 4 = 0"
  define q where "q \<longleftrightarrow> y mod 100 = 0"
  define r where "r \<longleftrightarrow> y mod 400 = 0"
  have d4: "y div 4 = a + (if p then 1 else 0)" unfolding a_def p_def by (rule div_step) simp
  have d100: "y div 100 = b + (if q then 1 else 0)" unfolding b_def q_def by (rule div_step) simp
  have d400: "y div 400 = c + (if r then 1 else 0)" unfolding c_def r_def by (rule div_step) simp
  have imp: "r \<longrightarrow> q" "q \<longrightarrow> p"
    unfolding p_def q_def r_def using leap_mods [of y] by blast+
  have lhs: "days_before_year y = 365 * (y - 1970) + (a - b + c) - 477"
    unfolding days_before_year_def a_def b_def c_def by (rule refl)
  have "y + 1 - 1 = y" by simp
  then have rhs: "days_before_year (y + 1) =
      365 * (y + 1 - 1970) + (y div 4 - y div 100 + y div 400) - 477"
    unfolding days_before_year_def by (simp only:)
  have len: "days_in_year y = (if p \<and> (\<not> q \<or> r) then 366 else 365)"
    unfolding days_in_year_def is_leap_def p_def q_def r_def by (rule refl)
  show ?thesis
    unfolding lhs rhs d4 d100 d400 len
    using imp by (cases p; cases q; cases r) simp_all
qed

lemma days_before_year_prev: "days_before_year (y - 1) = days_before_year y - days_in_year (y - 1)"
  using days_before_year_next [of "y - 1"] by simp

lemma days_in_year_cases: "days_in_year y = 365 \<or> days_in_year y = 366"
  by (simp add: days_in_year_def)

text \<open>The walk over the years ends inside a year and keeps the count of days.\<close>

lemma year_of_days_range:
  "year_of_days y d = (y', d') \<Longrightarrow> 0 \<le> d' \<and> d' < days_in_year y'"
proof (induction y d rule: year_of_days.induct)
  case (1 y d)
  show ?case
  proof (cases "d < 0")
    case True
    with "1.prems" have "year_of_days (y - 1) (d + days_in_year (y - 1)) = (y', d')"
      by (subst (asm) year_of_days.simps) simp
    with "1.IH"(1) True show ?thesis by blast
  next
    case False
    show ?thesis
    proof (cases "days_in_year y \<le> d")
      case True
      with False "1.prems" have "year_of_days (y + 1) (d - days_in_year y) = (y', d')"
        by (subst (asm) year_of_days.simps) simp
      with "1.IH"(2) False True show ?thesis by blast
    next
      case nle: False
      with False "1.prems" have "(y', d') = (y, d)"
        by (subst (asm) year_of_days.simps) simp
      with False nle show ?thesis by simp
    qed
  qed
qed

lemma year_of_days_total:
  "year_of_days y d = (y', d') \<Longrightarrow> days_before_year y' + d' = days_before_year y + d"
proof (induction y d rule: year_of_days.induct)
  case (1 y d)
  show ?case
  proof (cases "d < 0")
    case True
    with "1.prems" have "year_of_days (y - 1) (d + days_in_year (y - 1)) = (y', d')"
      by (subst (asm) year_of_days.simps) simp
    with "1.IH"(1) True
    have "days_before_year y' + d' = days_before_year (y - 1) + (d + days_in_year (y - 1))"
      by blast
    then show ?thesis by (simp add: days_before_year_prev)
  next
    case False
    show ?thesis
    proof (cases "days_in_year y \<le> d")
      case True
      with False "1.prems" have "year_of_days (y + 1) (d - days_in_year y) = (y', d')"
        by (subst (asm) year_of_days.simps) simp
      with "1.IH"(2) False True
      have "days_before_year y' + d' = days_before_year (y + 1) + (d - days_in_year y)"
        by blast
      then show ?thesis by (simp add: days_before_year_next)
    next
      case nle: False
      with False "1.prems" have "(y', d') = (y, d)"
        by (subst (asm) year_of_days.simps) simp
      then show ?thesis by simp
    qed
  qed
qed

lemma sum_list_month_lengths: "sum_list (month_lengths y) = days_in_year y"
  by (simp add: month_lengths_def days_in_year_def)

text \<open>The walk over the months ends inside a month and keeps the count of days.\<close>

lemma month_of_days_total:
  "month_of_days ls m d = (m', d') \<Longrightarrow> 0 \<le> d \<Longrightarrow> d < sum_list ls \<Longrightarrow>
   m \<le> m' \<and> m' < m + int (length ls) \<and> sum_list (take (nat (m' - m)) ls) + (d' - 1) = d
   \<and> 1 \<le> d' \<and> d' \<le> ls ! nat (m' - m)"
proof (induction ls arbitrary: m d)
  case Nil
  then show ?case by simp
next
  case (Cons l ls)
  show ?case
  proof (cases "d < l")
    case True
    with Cons.prems show ?thesis by auto
  next
    case False
    with Cons.prems have step: "month_of_days ls (m + 1) (d - l) = (m', d')" by simp
    from False Cons.prems have "0 \<le> d - l" "d - l < sum_list ls" by auto
    from Cons.IH [OF step this]
    have ih: "m + 1 \<le> m'" "m' < m + 1 + int (length ls)"
      "sum_list (take (nat (m' - (m + 1))) ls) + (d' - 1) = d - l"
      "1 \<le> d'" "d' \<le> ls ! nat (m' - (m + 1))" by auto
    from ih(1) have n: "nat (m' - m) = Suc (nat (m' - (m + 1)))" by simp
    show ?thesis using ih by (simp add: n)
  qed
qed

text \<open>time of day\<close>

lemma time_of_day:
  fixes secs :: int
  defines "sod \<equiv> secs mod 86400"
  shows "3600 * (sod div 3600) + 60 * (sod mod 3600 div 60) + sod mod 60 = sod"
    and "0 \<le> sod div 3600" and "sod div 3600 \<le> 23"
    and "0 \<le> sod mod 3600 div 60" and "sod mod 3600 div 60 \<le> 59"
    and "0 \<le> sod mod 60" and "sod mod 60 \<le> 59"
proof -
  define h where "h = sod div 3600"
  define r where "r = sod mod 3600"
  define n where "n = r div 60"
  define s where "s = r mod 60"
  have sod: "0 \<le> sod" "sod < 86400" unfolding sod_def by simp_all
  have 1: "sod = 3600 * h + r" unfolding h_def r_def by simp
  have r: "0 \<le> r" "r < 3600" unfolding r_def by simp_all
  have 2: "r = 60 * n + s" unfolding n_def s_def by simp
  have s: "0 \<le> s" "s < 60" unfolding s_def by simp_all
  have s': "sod mod 60 = s" unfolding s_def r_def by (simp add: mod_mod_cancel)
  have hb: "0 \<le> h \<and> h \<le> 23" using sod 1 r by linarith
  have nb: "0 \<le> n \<and> n \<le> 59" using r 2 s by linarith
  show "3600 * (sod div 3600) + 60 * (sod mod 3600 div 60) + sod mod 60 = sod"
    unfolding s' unfolding h_def [symmetric] r_def [symmetric] n_def [symmetric]
    using 1 2 by linarith
  show "0 \<le> sod div 3600" "sod div 3600 \<le> 23" using hb unfolding h_def by simp_all
  show "0 \<le> sod mod 3600 div 60" "sod mod 3600 div 60 \<le> 59"
    using nb unfolding n_def r_def by simp_all
  show "0 \<le> sod mod 60" "sod mod 60 \<le> 59" using s unfolding s' by simp_all
qed


lemma days_before_year_1970: "days_before_year 1970 = 0"
  by (simp add: days_before_year_def)

lemma days_before_year_1968: "days_before_year 1968 = - 731"
  by (simp add: days_before_year_def)

lemma days_before_year_mono: "y \<le> y' \<Longrightarrow> days_before_year y \<le> days_before_year y'"
proof (induction y' rule: int_ge_induct)
  case base
  show ?case by simp
next
  case (step i)
  have "0 \<le> days_in_year i" using days_in_year_cases [of i] by linarith
  with step.IH show ?case by (simp add: days_before_year_next)
qed

lemma month_lengths_le: "i < 12 \<Longrightarrow> month_lengths y ! i \<le> 31"
proof -
  assume "i < 12"
  then have "month_lengths y ! i \<in> set (month_lengths y)"
    by (intro nth_mem) (simp add: month_lengths_def)
  then show ?thesis by (auto simp: month_lengths_def split: if_splits)
qed

lemma local_fields_props:
  fixes off :: int and now :: nat
  defines "secs \<equiv> (int now + 1000 * off) div 1000"
  defines "c \<equiv> local_fields off now"
  shows "86400 * days_from_civil (c_year c) (c_month c) (c_day c)
           + 3600 * c_hour c + 60 * c_minute c + c_second c = secs"
    and "1 \<le> c_month c \<and> c_month c \<le> 12"
    and "1 \<le> c_day c \<and> c_day c \<le> 31"
    and "0 \<le> c_hour c \<and> c_hour c \<le> 23"
    and "0 \<le> c_minute c \<and> c_minute c \<le> 59"
    and "0 \<le> c_second c \<and> c_second c \<le> 59"
    and "- 86400 < off \<Longrightarrow> 1969 \<le> c_year c"
proof -
  define days where "days = secs div 86400"
  define sod where "sod = secs mod 86400"
  obtain y doy where yd: "year_of_days 1970 days = (y, doy)" by (cases "year_of_days 1970 days")
  obtain m d where md: "month_of_days (month_lengths y) 1 doy = (m, d)"
    by (cases "month_of_days (month_lengths y) 1 doy")
  have c: "c = \<lparr>c_year = y, c_month = m, c_day = d, c_hour = sod div 3600,
                c_minute = sod mod 3600 div 60, c_second = sod mod 60\<rparr>"
    unfolding c_def local_fields_def Let_def secs_def [symmetric]
      days_def [symmetric] sod_def [symmetric] yd by (simp add: md)
  from year_of_days_range [OF yd] have doy: "0 \<le> doy" "doy < days_in_year y" by simp_all
  from year_of_days_total [OF yd] have tot: "days_before_year y + doy = days"
    by (simp add: days_before_year_1970)
  from doy have "doy < sum_list (month_lengths y)" by (simp add: sum_list_month_lengths)
  from month_of_days_total [OF md doy(1) this]
  have m: "1 \<le> m" "m < 13"
    and sum: "sum_list (take (nat (m - 1)) (month_lengths y)) + (d - 1) = doy"
    and d: "1 \<le> d" "d \<le> month_lengths y ! nat (m - 1)"
    by (simp_all add: month_lengths_def)
  from m have "nat (m - 1) < 12" by simp
  from month_lengths_le [OF this, of y] d have d31: "d \<le> 31" by linarith
  have dfc: "days_from_civil y m d = days"
    unfolding days_from_civil_def using sum tot by simp
  have split: "86400 * days + sod = secs" unfolding days_def sod_def by simp
  note tod = time_of_day [of secs, folded sod_def]
  show "86400 * days_from_civil (c_year c) (c_month c) (c_day c)
           + 3600 * c_hour c + 60 * c_minute c + c_second c = secs"
    using dfc split tod(1) by (simp add: c)
  show "1 \<le> c_month c \<and> c_month c \<le> 12" using m by (simp add: c)
  show "1 \<le> c_day c \<and> c_day c \<le> 31" using d d31 by (simp add: c)
  show "0 \<le> c_hour c \<and> c_hour c \<le> 23" using tod(2,3) by (simp add: c)
  show "0 \<le> c_minute c \<and> c_minute c \<le> 59" using tod(4,5) by (simp add: c)
  show "0 \<le> c_second c \<and> c_second c \<le> 59" using tod(6,7) by (simp add: c)
  show "1969 \<le> c_year c" if off: "- 86400 < off"
  proof (rule ccontr)
    assume "\<not> 1969 \<le> c_year c"
    then have "y \<le> 1968" by (simp add: c)
    from days_before_year_mono [OF this] have "days_before_year y \<le> - 731"
      by (simp add: days_before_year_1968)
    moreover have "doy \<le> 365" using doy(2) days_in_year_cases [of y] by linarith
    ultimately have "days \<le> - 366" using tot by linarith
    have "- 86399000 \<le> int now + 1000 * off" using off by linarith
    then have "(- 86399000) div 1000 \<le> secs" unfolding secs_def by (rule zdiv_mono1) simp
    then have "- 86399 \<le> secs" by simp
    then have "(- 86399) div 86400 \<le> days" unfolding days_def by (rule zdiv_mono1) simp
    then have "- 1 \<le> days" by simp
    with \<open>days \<le> - 366\<close> show False by linarith
  qed
qed

lemma digit_char_props:
  "n < 10 \<Longrightarrow> is_digit (digit_char n)" "n < 10 \<Longrightarrow> digit_val (digit_char n) = n"
  by (simp_all add: digit_char_def is_digit_def digit_val_def)

lemma separators_not_digits:
  "\<not> is_digit CHR '' ''" "\<not> is_digit CHR ''.''" "\<not> is_digit CHR '':''"
  by (simp_all add: is_digit_def)

lemma read_digits_snoc: "read_digits acc (xs @ [c]) = 10 * read_digits acc xs + digit_val c"
  by (induction xs arbitrary: acc) simp_all

lemma digits_of_props:
  "list_all is_digit (digits_of n) \<and> digits_of n \<noteq> [] \<and> read_digits 0 (digits_of n) = n"
proof (induction n rule: digits_of.induct)
  case (1 n)
  show ?case
  proof (cases "n < 10")
    case True
    then show ?thesis by (subst (1 2 3) digits_of.simps) (simp add: digit_char_props)
  next
    case False
    have "n mod 10 < 10" by simp
    with False "1.IH" show ?thesis
      by (subst (1 2 3) digits_of.simps) (simp add: digit_char_props read_digits_snoc)
  qed
qed

lemma parse_number_digits_of: "parse_number (digits_of n) = Some n"
  using digits_of_props [of n] by (simp add: parse_number_def)

lemma parse_number_pair:
  "a < 10 \<Longrightarrow> b < 10 \<Longrightarrow> parse_number [digit_char a, digit_char b] = Some (10 * a + b)"
  by (simp add: parse_number_def digit_char_props)

lemma parse_number_two_digits:
  assumes "n < 100"
  shows "parse_number (two_digits n) = Some n"
proof -
  define a where "a = n div 10 mod 10"
  define b where "b = n mod 10"
  have a: "a < 10" and b: "b < 10" unfolding a_def b_def by simp_all
  from assms have "n div 10 < 10" by simp
  then have "a = n div 10" unfolding a_def by simp
  then have n: "10 * a + b = n" unfolding b_def by simp
  have "two_digits n = [digit_char a, digit_char b]"
    unfolding two_digits_def a_def b_def by (rule refl)
  then show ?thesis using parse_number_pair [OF a b] n by simp
qed

lemma two_digits_chars: "\<exists>a b. two_digits n = [a, b]"
  by (simp add: two_digits_def)

lemma takeWhile_digits_of:
  "takeWhile is_digit (digits_of y @ CHR '' '' # rest) = digits_of y"
proof -
  have "\<And>x. x \<in> set (digits_of y) \<Longrightarrow> is_digit x"
    using digits_of_props [of y] by (simp add: list_all_iff)
  then show ?thesis by (simp add: takeWhile_append2 separators_not_digits)
qed

lemma dropWhile_digits_of:
  "dropWhile is_digit (digits_of y @ CHR '' '' # rest) = CHR '' '' # rest"
proof -
  have "\<And>x. x \<in> set (digits_of y) \<Longrightarrow> is_digit x"
    using digits_of_props [of y] by (simp add: list_all_iff)
  then show ?thesis by (simp add: dropWhile_append2 separators_not_digits)
qed

lemma parse_timestamp_chars:
  assumes "parse_number [d1, d2] = Some d" "parse_number [m1, m2] = Some m"
    "parse_number [h1, h2] = Some h" "parse_number [n1, n2] = Some n"
    "parse_number [s1, s2] = Some s"
  shows "parse_timestamp ([d1, d2] @ ''.'' @ [m1, m2] @ ''.'' @ digits_of y @ '' '' @
           [h1, h2] @ '':'' @ [n1, n2] @ '':'' @ [s1, s2]) =
         Some \<lparr>c_year = int y, c_month = int m, c_day = int d,
               c_hour = int h, c_minute = int n, c_second = int s\<rparr>"
  by (simp add: assms takeWhile_digits_of dropWhile_digits_of parse_number_digits_of)

lemma parse_timestamp_format:
  assumes "d < 100" "m < 100" "h < 100" "n < 100" "s < 100"
  shows "parse_timestamp (two_digits d @ ''.'' @ two_digits m @ ''.'' @ digits_of y @ '' '' @
           two_digits h @ '':'' @ two_digits n @ '':'' @ two_digits s) =
         Some \<lparr>c_year = int y, c_month = int m, c_day = int d,
               c_hour = int h, c_minute = int n, c_second = int s\<rparr>"
proof -
  obtain d1 d2 where d: "two_digits d = [d1, d2]" using two_digits_chars by blast
  obtain m1 m2 where m: "two_digits m = [m1, m2]" using two_digits_chars by blast
  obtain h1 h2 where h: "two_digits h = [h1, h2]" using two_digits_chars by blast
  obtain n1 n2 where n: "two_digits n = [n1, n2]" using two_digits_chars by blast
  obtain s1 s2 where s: "two_digits s = [s1, s2]" using two_digits_chars by blast
  show ?thesis
    unfolding d m h n s
    by (rule parse_timestamp_chars)
       (simp_all only: d [symmetric] m [symmetric] h [symmetric] n [symmetric] s [symmetric]
          parse_number_two_digits assms)
qed

lemma toLocaleString_text:
  assumes "db ''Europe/Istanbul'' = Some zone"
  shows "toLocaleString_tr_TR db time_now_options now =
    (let c = local_fields (zone now) now
     in Inr (two_digits (nat (c_day c)) @ ''.'' @ two_digits (nat (c_month c)) @ ''.'' @
             digits_of (year_of_era (c_year c)) @ '' '' @
             two_digits (nat (c_hour c)) @ '':'' @ two_digits (nat (c_minute c)) @ '':'' @
             two_digits (nat (c_second c))))"
  using assms by (simp add: toLocaleString_tr_TR_def time_now_options_def Let_def)

lemma toLocaleString_roundtrip:
  assumes db: "db ''Europe/Istanbul'' = Some zone" and off: "- 86400 < zone now"
  shows "\<exists>ts. toLocaleString_tr_TR db time_now_options now = Inr ts
           \<and> parse_timestamp ts = Some (local_fields (zone now) now)
           \<and> instant_of_civil (local_fields (zone now) now) (zone now) = 1000 * (int now div 1000)"
proof -
  define c where "c = local_fields (zone now) now"
  note p = local_fields_props [of "zone now" now, folded c_def]
  define ts where "ts = two_digits (nat (c_day c)) @ ''.'' @ two_digits (nat (c_month c)) @ ''.'' @
             digits_of (year_of_era (c_year c)) @ '' '' @
             two_digits (nat (c_hour c)) @ '':'' @ two_digits (nat (c_minute c)) @ '':'' @
             two_digits (nat (c_second c))"
  have 1: "toLocaleString_tr_TR db time_now_options now = Inr ts"
    unfolding ts_def c_def using toLocaleString_text [of db zone now] db by (simp add: Let_def)
  have y: "1969 \<le> c_year c" using p(7) off by simp
  have "parse_timestamp ts =
      Some \<lparr>c_year = int (year_of_era (c_year c)), c_month = int (nat (c_month c)),
            c_day = int (nat (c_day c)), c_hour = int (nat (c_hour c)),
            c_minute = int (nat (c_minute c)), c_second = int (nat (c_second c))\<rparr>"
    unfolding ts_def using p(2-6) by (intro parse_timestamp_format) linarith+
  also have "\<dots> = Some c"
    using p(2-6) y by (cases c) (simp add: year_of_era_def)
  finally have 2: "parse_timestamp ts = Some c" .
  have "(int now + 1000 * zone now) div 1000 = int now div 1000 + zone now" by simp
  with p(1) have 3: "instant_of_civil c (zone now) = 1000 * (int now div 1000)"
    by (simp add: instant_of_civil_def)
  from 1 2 3 show ?thesis unfolding c_def by blast
qed

lemmas calendar_eval =
  local_fields_def year_of_days.simps days_in_year_def is_leap_def month_lengths_def Let_def

lemma digit_char_table:
  "digit_char 0 = CHR ''0''" "digit_char 1 = CHR ''1''" "digit_char 2 = CHR ''2''"
  "digit_char 3 = CHR ''3''" "digit_char 4 = CHR ''4''" "digit_char 5 = CHR ''5''"
  "digit_char 6 = CHR ''6''" "digit_char 7 = CHR ''7''" "digit_char 8 = CHR ''8''"
  "digit_char 9 = CHR ''9''" "digit_char (Suc 0) = CHR ''1''"
  by code_simp+

lemmas digits_eval =
  two_digits_def digits_of.simps year_of_era_def digit_char_table

lemma fields_2024:
  "local_fields 10800 1705314600000 =
     \<lparr>c_year = 2024, c_month = 1, c_day = 15, c_hour = 13, c_minute = 30, c_second = 0\<rparr>"
  by (simp add: calendar_eval)

lemma fields_2015_before:
  "local_fields 10800 1446942600000 =
     \<lparr>c_year = 2015, c_month = 11, c_day = 8, c_hour = 3, c_minute = 30, c_second = 0\<rparr>"
  by (simp add: calendar_eval)

lemma fields_2015_after:
  "local_fields 7200 1446946200000 =
     \<lparr>c_year = 2015, c_month = 11, c_day = 8, c_hour = 3, c_minute = 30, c_second = 0\<rparr>"
  by (simp add: calendar_eval)

lemma string_2024:
  "two_digits 15 @ ''.'' @ two_digits 1 @ ''.'' @ digits_of (year_of_era 2024) @ '' '' @
   two_digits 13 @ '':'' @ two_digits 30 @ '':'' @ two_digits 0 = ''15.01.2024 13:30:00''"
  by (simp add: digits_eval)

lemma string_2015:
  "two_digits 8 @ ''.'' @ two_digits 11 @ ''.'' @ digits_of (year_of_era 2015) @ '' '' @
   two_digits 3 @ '':'' @ two_digits 30 @ '':'' @ two_digits 0 = ''08.11.2015 03:30:00''"
  by (simp add: digits_eval)

lemma utc_plus_3_zone: "utc_plus_3 ''Europe/Istanbul'' = Some (\<lambda>t. 10800)"
  by (simp add: utc_plus_3_def)

lemma autumn_2015_zone:
  "autumn_2015 ''Europe/Istanbul'' = Some (\<lambda>t. if t < 1446944400000 then 10800 else 7200)"
  by (simp add: autumn_2015_def)

section \<open>Properties of the callback\<close>

lemma time_now_result:
  "db ''Europe/Istanbul'' = Some zone \<Longrightarrow>
   \<exists>ts. toLocaleString_tr_TR db time_now_options (clock w) = Inr ts \<and>
     time_now db args w =
       (Inr \<lparr>content = [\<lparr>type_field = ''text'', text_field = prefix_text @ ts\<rparr>]\<rparr>, w)"
  by (simp add: time_now_def new_Date_def toLocaleString_tr_TR_def time_now_options_def Let_def)

text \<open>
  C2. Invoked with no arguments, in a runtime that has the data of the zone, the callback
  returns a result whose content is a list of exactly one block, and the type of that
  block is the literal \<^verbatim>\<open>text\<close>.
\<close>

theorem time_now_one_text_block:
  assumes "db ''Europe/Istanbul'' = Some zone"
  shows "\<exists>r b. fst (time_now db () w) = Inr r \<and> content r = [b] \<and> type_field b = ''text''"
  using time_now_result [of db zone w "()"] assms by auto

theorem time_now_one_text_block_witness:
  "\<exists>r b. fst (time_now utc_plus_3 () process_2024) = Inr r
         \<and> content r = [b] \<and> type_field b = ''text''"
  by (rule time_now_one_text_block [of utc_plus_3 "\<lambda>t. 10800"]) (rule utc_plus_3_zone)

lemma time_now_formatted:
  "toLocaleString_tr_TR db time_now_options (clock w) = Inr ts \<Longrightarrow>
   time_now db args w =
     (Inr \<lparr>content = [\<lparr>type_field = ''text'', text_field = prefix_text @ ts\<rparr>]\<rparr>, w)"
  by (simp add: time_now_def new_Date_def Let_def)

lemma time_now_2024:
  assumes "db ''Europe/Istanbul'' = Some zone" "zone 1705314600000 = 10800"
    "clock w = 1705314600000"
  shows "time_now db args w =
    (Inr \<lparr>content = [\<lparr>type_field = ''text'',
                        text_field = prefix_text @ ''15.01.2024 13:30:00''\<rparr>]\<rparr>, w)"
proof -
  have "toLocaleString_tr_TR db time_now_options (clock w) = Inr ''15.01.2024 13:30:00''"
    using toLocaleString_text [of db zone "clock w"] assms string_2024
    by (simp add: Let_def fields_2024)
  then show ?thesis by (rule time_now_formatted)
qed

text \<open>
  C1. Whenever the callback is invoked in a runtime that has the data of the zone, the
  single text field of its result is the fixed prefix followed by the formatted
  timestamp: day, month (two digits each) and year (numeric) separated by full stops, a
  space, then hour, minute and second (two digits each) separated by colons, as the locale
  \<^verbatim>\<open>tr-TR\<close> writes them. The fields are those of the clock reading in the zone
  \<^verbatim>\<open>Europe/Istanbul\<close>: counted back in seconds they give the reading plus the offset of the
  zone, and each two-digit field lies in its calendar range.
\<close>

theorem time_now_text_format:
  assumes "db ''Europe/Istanbul'' = Some zone"
  shows "let c = local_fields (zone (clock w)) (clock w) in
     fst (time_now db args w) =
       Inr \<lparr>content = [\<lparr>type_field = ''text'',
         text_field = prefix_text @
           two_digits (nat (c_day c)) @ ''.'' @ two_digits (nat (c_month c)) @ ''.'' @
           digits_of (year_of_era (c_year c)) @ '' '' @
           two_digits (nat (c_hour c)) @ '':'' @ two_digits (nat (c_minute c)) @ '':'' @
           two_digits (nat (c_second c))\<rparr>]\<rparr>
     \<and> 86400 * days_from_civil (c_year c) (c_month c) (c_day c)
         + 3600 * c_hour c + 60 * c_minute c + c_second c
       = int (clock w) div 1000 + zone (clock w)
     \<and> 1 \<le> c_month c \<and> c_month c \<le> 12 \<and> 1 \<le> c_day c \<and> c_day c \<le> 31
     \<and> 0 \<le> c_hour c \<and> c_hour c \<le> 23 \<and> 0 \<le> c_minute c \<and> c_minute c \<le> 59
     \<and> 0 \<le> c_second c \<and> c_second c \<le> 59"
proof -
  define c where "c = local_fields (zone (clock w)) (clock w)"
  note p = local_fields_props [of "zone (clock w)" "clock w", folded c_def]
  have "toLocaleString_tr_TR db time_now_options (clock w) =
      Inr (two_digits (nat (c_day c)) @ ''.'' @ two_digits (nat (c_month c)) @ ''.'' @
           digits_of (year_of_era (c_year c)) @ '' '' @
           two_digits (nat (c_hour c)) @ '':'' @ two_digits (nat (c_minute c)) @ '':'' @
           two_digits (nat (c_second c)))"
    using toLocaleString_text [of db zone "clock w"] assms by (simp add: Let_def c_def)
  from time_now_formatted [OF this, of args]
  have 1: "fst (time_now db args w) =
       Inr \<lparr>content = [\<lparr>type_field = ''text'',
         text_field = prefix_text @
           two_digits (nat (c_day c)) @ ''.'' @ two_digits (nat (c_month c)) @ ''.'' @
           digits_of (year_of_era (c_year c)) @ '' '' @
           two_digits (nat (c_hour c)) @ '':'' @ two_digits (nat (c_minute c)) @ '':'' @
           two_digits (nat (c_second c))\<rparr>]\<rparr>" by simp
  have "(int (clock w) + 1000 * zone (clock w)) div 1000 = int (clock w) div 1000 + zone (clock w)"
    by simp
  with p(1) have 2: "86400 * days_from_civil (c_year c) (c_month c) (c_day c)
         + 3600 * c_hour c + 60 * c_minute c + c_second c
       = int (clock w) div 1000 + zone (clock w)" by simp
  show ?thesis
    unfolding Let_def c_def [symmetric] using 1 2 p(2-6) by blast
qed

theorem time_now_text_format_witness:
  "fst (time_now utc_plus_3 () process_2024) =
     Inr \<lparr>content = [\<lparr>type_field = ''text'',
                        text_field = prefix_text @ ''15.01.2024 13:30:00''\<rparr>]\<rparr>
   \<and> 86400 * days_from_civil 2024 1 15 + 3600 * 13 + 60 * 30 + 0 = (1705314600 + 10800 :: int)"
  using time_now_text_format [of utc_plus_3 "\<lambda>t. 10800" process_2024 "()"] string_2024
  by (simp add: utc_plus_3_zone process_2024_def fields_2024 Let_def)

text \<open>
  C3. Invoked at the instant 2024-01-15T10:30:00Z (1705314600000 milliseconds after the
  epoch), with the zone three hours ahead of UTC at that instant, the callback returns one
  text block whose text is the prefix sentence followed by \<^verbatim>\<open>15.01.2024 13:30:00\<close>; it
  contains \<^verbatim>\<open>15.01.2024\<close> and \<^verbatim>\<open>13:30:00\<close>.
\<close>

theorem time_now_example:
  assumes "db ''Europe/Istanbul'' = Some zone" and "zone 1705314600000 = 10800"
    and "clock w = 1705314600000"
  shows "\<exists>r b. fst (time_now db () w) = Inr r \<and> content r = [b]
      \<and> text_field b = prefix_text @ ''15.01.2024 13:30:00''
      \<and> (\<exists>pre post. text_field b = pre @ ''15.01.2024'' @ post)
      \<and> (\<exists>pre post. text_field b = pre @ ''13:30:00'' @ post)"
proof -
  let ?b = "\<lparr>type_field = ''text'', text_field = prefix_text @ ''15.01.2024 13:30:00''\<rparr>"
  have 1: "fst (time_now db () w) = Inr \<lparr>content = [?b]\<rparr>"
    using time_now_2024 [of db zone w "()"] assms by simp
  have 2: "\<exists>pre post. text_field ?b = pre @ ''15.01.2024'' @ post"
    by (rule exI [of _ prefix_text], rule exI [of _ "'' 13:30:00''"]) simp
  have 3: "\<exists>pre post. text_field ?b = pre @ ''13:30:00'' @ post"
    by (rule exI [of _ "prefix_text @ ''15.01.2024 ''"], rule exI [of _ "[]"]) simp
  show ?thesis
    by (rule exI [of _ "\<lparr>content = [?b]\<rparr>"], rule exI [of _ ?b]) (use 1 2 3 in simp)
qed

theorem time_now_example_witness:
  "\<exists>r b. fst (time_now utc_plus_3 () process_2024) = Inr r \<and> content r = [b]
      \<and> text_field b = prefix_text @ ''15.01.2024 13:30:00''
      \<and> (\<exists>pre post. text_field b = pre @ ''15.01.2024'' @ post)
      \<and> (\<exists>pre post. text_field b = pre @ ''13:30:00'' @ post)"
  by (rule time_now_example [of utc_plus_3 "\<lambda>t. 10800" process_2024])
     (simp_all add: utc_plus_3_zone process_2024_def)

text \<open>
  C4. The callback cannot fail when the runtime has the data of the zone: at every clock
  reading, and whatever arguments it is passed, it returns a result and no error.
\<close>

theorem time_now_cannot_fail:
  assumes "db ''Europe/Istanbul'' = Some zone"
  shows "\<exists>r. fst (time_now db args w) = Inr r"
  using time_now_result [of db zone w args] assms by auto

theorem time_now_cannot_fail_witness:
  "\<exists>r. fst (time_now utc_plus_3 () process_2024) = Inr r"
  by (rule time_now_cannot_fail [of utc_plus_3 "\<lambda>t. 10800"]) (rule utc_plus_3_zone)

text \<open>
  C9. The callback has no effect on the process: it hands the process back unchanged,
  and two invocations that observe the same clock reading return the same result,
  whatever the rest of the process state is.
\<close>

theorem time_now_side_effect_free:
  "snd (time_now db args w) = w \<and>
   (clock w1 = clock w2 \<longrightarrow> fst (time_now db args w1) = fst (time_now db args w2))"
  by (simp add: time_now_def new_Date_def Let_def split: sum.splits)

theorem time_now_side_effect_free_witness:
  "snd (time_now utc_plus_3 () process_2024) = process_2024 \<and>
   fst (time_now utc_plus_3 () \<lparr>clock = 1705314600000, state = True\<rparr>) =
   fst (time_now utc_plus_3 () \<lparr>clock = 1705314600000, state = False\<rparr>)"
  using time_now_side_effect_free [of utc_plus_3 "()" process_2024
      "\<lparr>clock = 1705314600000, state = True\<rparr>" "\<lparr>clock = 1705314600000, state = False\<rparr>"]
  by simp

text \<open>
  C10. The callback binds no parameter: an invocation that is passed an argument object,
  whatever it holds, returns what the invocation without arguments returns at the same
  clock reading.
\<close>

theorem time_now_ignores_arguments:
  "time_now db args w = time_now db () w"
  by (simp add: time_now_def new_Date_def)

lemma handler_server:
  "(handler :: error + ('v, 's) mcp_server) =
     Inr \<lparr>tools = [(''time_now'',
              \<lparr>description = ''Returns the current time in Istanbul (Europe/Istanbul timezone)'',
               inputSchema = [], callback = time_now\<rparr>)],
          resources = [], prompts = []\<rparr>"
  by (simp add: handler_def createMcpHandler_def configure_def server_tool_def new_server_def)

text \<open>
  C6. The configuration closure, run on the server that the handler creates, registers
  exactly one tool: the 4-tuple of the name \<^verbatim>\<open>time_now\<close>, the fixed description, the schema
  and the callback. No resource and no prompt is registered, and the names of the
  registered tools are distinct.
\<close>

theorem handler_registers_one_tool:
  "\<exists>s. (handler :: error + ('v, 's) mcp_server) = Inr s
     \<and> tools s = [(''time_now'',
          \<lparr>description = ''Returns the current time in Istanbul (Europe/Istanbul timezone)'',
           inputSchema = [], callback = time_now\<rparr>)]
     \<and> resources s = [] \<and> prompts s = []
     \<and> map fst (tools s) = [''time_now''] \<and> distinct (map fst (tools s))"
  by (simp add: handler_server)



lemma whole_second:
  fixes n :: nat
  shows "1000 * (int n div 1000) \<le> int n" and "int n < 1000 * (int n div 1000) + 1000"
proof -
  define q where "q = int n div 1000"
  define r where "r = int n mod 1000"
  have "int n = 1000 * q + r" "0 \<le> r" "r < 1000" unfolding q_def r_def by simp_all
  then show "1000 * (int n div 1000) \<le> int n" "int n < 1000 * (int n div 1000) + 1000"
    unfolding q_def [symmetric] by linarith+
qed

lemma time_now_roundtrip:
  assumes db: "db ''Europe/Istanbul'' = Some zone" and off: "- 86400 < zone (clock w)"
  shows "\<exists>ts. fst (time_now db args w) =
           Inr \<lparr>content = [\<lparr>type_field = ''text'', text_field = prefix_text @ ts\<rparr>]\<rparr>
         \<and> parse_timestamp ts = Some (local_fields (zone (clock w)) (clock w))
         \<and> instant_of_civil (local_fields (zone (clock w)) (clock w)) (zone (clock w))
             = 1000 * (int (clock w) div 1000)"
proof -
  from toLocaleString_roundtrip [of db zone "clock w"] db off
  obtain ts where ts: "toLocaleString_tr_TR db time_now_options (clock w) = Inr ts"
    and p: "parse_timestamp ts = Some (local_fields (zone (clock w)) (clock w))"
    and i: "instant_of_civil (local_fields (zone (clock w)) (clock w)) (zone (clock w))
             = 1000 * (int (clock w) div 1000)"
    by blast
  from time_now_formatted [OF ts, of args] p i show ?thesis by simp
qed

text \<open>
  C8. Whenever the callback is invoked in a runtime that has the data of the zone, the
  timestamp that follows the prefix in the returned text parses, and the local time it
  shows, taken back to UTC with the offset of the zone at the clock reading (daylight
  saving included: the offset is the one the zone has at that instant), is the clock
  reading cut to whole seconds. It differs from the reading by less than one second, so
  by less than the tolerance of two seconds. The offset is less than a day, as every
  offset of a time zone is.
\<close>

theorem time_now_timestamp_within_tolerance:
  assumes "db ''Europe/Istanbul'' = Some zone" and "\<bar>zone (clock w)\<bar> < 86400"
  shows "\<exists>r b c. fst (time_now db args w) = Inr r \<and> content r = [b]
     \<and> parse_timestamp (drop (length prefix_text) (text_field b)) = Some c
     \<and> instant_of_civil c (zone (clock w)) \<le> int (clock w)
     \<and> int (clock w) < instant_of_civil c (zone (clock w)) + 1000
     \<and> \<bar>int (clock w) - instant_of_civil c (zone (clock w))\<bar> \<le> 2000"
proof -
  from assms(2) have off: "- 86400 < zone (clock w)" by linarith
  from time_now_roundtrip [of db zone w args] assms(1) off
  obtain ts where r: "fst (time_now db args w) =
           Inr \<lparr>content = [\<lparr>type_field = ''text'', text_field = prefix_text @ ts\<rparr>]\<rparr>"
    and p: "parse_timestamp ts = Some (local_fields (zone (clock w)) (clock w))"
    and i: "instant_of_civil (local_fields (zone (clock w)) (clock w)) (zone (clock w))
             = 1000 * (int (clock w) div 1000)"
    by blast
  let ?b = "\<lparr>type_field = ''text'', text_field = prefix_text @ ts\<rparr>"
  let ?c = "local_fields (zone (clock w)) (clock w)"
  have 1: "parse_timestamp (drop (length prefix_text) (text_field ?b)) = Some ?c"
    using p by simp
  note s = whole_second [of "clock w", folded i]
  from s have 2: "\<bar>int (clock w) - instant_of_civil ?c (zone (clock w))\<bar> \<le> 2000"
    by linarith
  show ?thesis
    by (rule exI [of _ "\<lparr>content = [?b]\<rparr>"], rule exI [of _ ?b], rule exI [of _ ?c])
       (use r 1 2 s in simp)
qed

theorem time_now_timestamp_within_tolerance_witness:
  "\<exists>r b c. fst (time_now utc_plus_3 () process_2024) = Inr r \<and> content r = [b]
     \<and> parse_timestamp (drop (length prefix_text) (text_field b)) = Some c
     \<and> instant_of_civil c 10800 \<le> int (clock process_2024)
     \<and> int (clock process_2024) < instant_of_civil c 10800 + 1000
     \<and> \<bar>int (clock process_2024) - instant_of_civil c 10800\<bar> \<le> 2000"
  using time_now_timestamp_within_tolerance [of utc_plus_3 "\<lambda>t. 10800" process_2024 "()"]
  by (simp add: utc_plus_3_zone)

text \<open>
  C7, as stated, fails. In a runtime whose zone leaves summer time as Istanbul did on
  8 November 2015, the clock readings 2015-11-08T00:30:00Z and 2015-11-08T01:30:00Z lie
  an hour apart and the callback returns the same text for both: the local time
  03:30:00 of that day comes twice, and the text carries no offset.
\<close>

theorem time_now_repeats_counterexample:
  "clock \<lparr>clock = 1446942600000, state = ()\<rparr> + 1000 \<le> clock \<lparr>clock = 1446946200000, state = ()\<rparr>
   \<and> fst (time_now autumn_2015 () \<lparr>clock = 1446942600000, state = ()\<rparr>) =
       Inr \<lparr>content = [\<lparr>type_field = ''text'',
                          text_field = prefix_text @ ''08.11.2015 03:30:00''\<rparr>]\<rparr>
   \<and> fst (time_now autumn_2015 () \<lparr>clock = 1446946200000, state = ()\<rparr>) =
       Inr \<lparr>content = [\<lparr>type_field = ''text'',
                          text_field = prefix_text @ ''08.11.2015 03:30:00''\<rparr>]\<rparr>"
proof -
  have a: "toLocaleString_tr_TR autumn_2015 time_now_options 1446942600000 =
      Inr ''08.11.2015 03:30:00''"
    using toLocaleString_text [of autumn_2015 _ 1446942600000, OF autumn_2015_zone] string_2015
    by (simp add: Let_def fields_2015_before)
  have b: "toLocaleString_tr_TR autumn_2015 time_now_options 1446946200000 =
      Inr ''08.11.2015 03:30:00''"
    using toLocaleString_text [of autumn_2015 _ 1446946200000, OF autumn_2015_zone] string_2015
    by (simp add: Let_def fields_2015_after)
  show ?thesis
    using time_now_formatted [of autumn_2015 "\<lparr>clock = 1446942600000, state = ()\<rparr>" _ "()"]
      time_now_formatted [of autumn_2015 "\<lparr>clock = 1446946200000, state = ()\<rparr>" _ "()"] a b
    by simp
qed

text \<open>
  C7, amended. Two invocations whose clock readings are at least one second apart and
  at which the zone has the same offset from UTC (an offset of less than a day) return
  different texts.
\<close>

theorem time_now_distinct_under_one_offset:
  assumes "db ''Europe/Istanbul'' = Some zone"
    and "clock w1 + 1000 \<le> clock w2"
    and "zone (clock w1) = zone (clock w2)"
    and "\<bar>zone (clock w1)\<bar> < 86400"
  shows "fst (time_now db args w1) \<noteq> fst (time_now db args w2)"
proof
  assume eq: "fst (time_now db args w1) = fst (time_now db args w2)"
  from assms(4) have off1: "- 86400 < zone (clock w1)" by linarith
  with assms(3) have off2: "- 86400 < zone (clock w2)" by simp
  from time_now_roundtrip [of db zone w1 args] assms(1) off1
  obtain ts1 where r1: "fst (time_now db args w1) =
           Inr \<lparr>content = [\<lparr>type_field = ''text'', text_field = prefix_text @ ts1\<rparr>]\<rparr>"
    and p1: "parse_timestamp ts1 = Some (local_fields (zone (clock w1)) (clock w1))"
    and i1: "instant_of_civil (local_fields (zone (clock w1)) (clock w1)) (zone (clock w1))
             = 1000 * (int (clock w1) div 1000)"
    by blast
  from time_now_roundtrip [of db zone w2 args] assms(1) off2
  obtain ts2 where r2: "fst (time_now db args w2) =
           Inr \<lparr>content = [\<lparr>type_field = ''text'', text_field = prefix_text @ ts2\<rparr>]\<rparr>"
    and p2: "parse_timestamp ts2 = Some (local_fields (zone (clock w2)) (clock w2))"
    and i2: "instant_of_civil (local_fields (zone (clock w2)) (clock w2)) (zone (clock w2))
             = 1000 * (int (clock w2) div 1000)"
    by blast
  from eq r1 r2 have "ts1 = ts2" by simp
  with p1 p2 have "local_fields (zone (clock w1)) (clock w1) =
      local_fields (zone (clock w2)) (clock w2)" by simp
  with i1 i2 assms(3) have "1000 * (int (clock w1) div 1000) = 1000 * (int (clock w2) div 1000)"
    by simp
  with whole_second [of "clock w1"] whole_second [of "clock w2"]
  have "int (clock w2) < int (clock w1) + 1000" by linarith
  with assms(2) show False by linarith
qed

theorem time_now_distinct_under_one_offset_witness:
  "fst (time_now utc_plus_3 () process_2024) \<noteq>
   fst (time_now utc_plus_3 () \<lparr>clock = 1705314601000, state = ()\<rparr>)"
  using time_now_distinct_under_one_offset
    [of utc_plus_3 "\<lambda>t. 10800" process_2024 "\<lparr>clock = 1705314601000, state = ()\<rparr>" "()"]
  by (simp add: utc_plus_3_zone process_2024_def)

end
